theory Spec2Isabelle
  imports Complex_Main "HOL-Library.Word"
begin

unbundle bit_operations_syntax

section \<open>JavaScript values\<close>

text \<open>
  The SDK (\<^verbatim>\<open>src/index.js\<close>) inspects its arguments at run time with \<^verbatim>\<open>typeof\<close>,
  with truthiness and with \<^verbatim>\<open>===\<close>, so the model keeps the dynamic type of every value.
  A string is a list of characters (one \<open>char\<close> per code unit; the catalogs are ASCII).
  Functions and objects are known by their identity only. A number is a rational, an
  infinity or NaN; the two zeros are not told apart, no operation of the SDK does so.
\<close>

datatype number = NaN | PosInfinity | NegInfinity | Finite rat

datatype jsval =
    JUndefined
  | JNull
  | JBoolean bool
  | JNumber number
  | JBigInt int
  | JString string
  | JSymbol nat
  | JFunction nat
  | JObject nat

fun typeof :: "jsval \<Rightarrow> string" where
  "typeof JUndefined = ''undefined''"
| "typeof JNull = ''object''"
| "typeof (JBoolean b) = ''boolean''"
| "typeof (JNumber n) = ''number''"
| "typeof (JBigInt i) = ''bigint''"
| "typeof (JString s) = ''string''"
| "typeof (JSymbol n) = ''symbol''"
| "typeof (JFunction f) = ''function''"
| "typeof (JObject p) = ''object''"

text \<open>ToBoolean: what \<^verbatim>\<open>if (v)\<close>, \<^verbatim>\<open>!v\<close> and \<^verbatim>\<open>a && b\<close> test.\<close>

fun truthy :: "jsval \<Rightarrow> bool" where
  "truthy JUndefined = False"
| "truthy JNull = False"
| "truthy (JBoolean b) = b"
| "truthy (JNumber n) = (n \<noteq> NaN \<and> n \<noteq> Finite 0)"
| "truthy (JBigInt i) = (i \<noteq> 0)"
| "truthy (JString s) = (s \<noteq> [])"
| "truthy (JSymbol n) = True"
| "truthy (JFunction f) = True"
| "truthy (JObject p) = True"

text \<open>Strict equality \<^verbatim>\<open>===\<close>: same type and same value (same identity for functions and
  objects), and NaN differs from itself.\<close>

definition strict_eq :: "jsval \<Rightarrow> jsval \<Rightarrow> bool" where
  "strict_eq a b = (a = b \<and> a \<noteq> JNumber NaN)"

section \<open>Strings: split, join and conversion to a number\<close>

text \<open>\<^verbatim>\<open>s.split(sep)\<close> for a one-character separator: the pieces between the separators,
  never an empty array (\<^verbatim>\<open>''.split('/')\<close> is \<^verbatim>\<open>['']\<close>).\<close>

fun split :: "char \<Rightarrow> string \<Rightarrow> string list" where
  "split sep [] = [[]]"
| "split sep (c # cs) =
     (if c = sep then [] # split sep cs
      else (case split sep cs of
              [] \<Rightarrow> [[c]]
            | x # xs \<Rightarrow> (c # x) # xs))"

text \<open>\<^verbatim>\<open>Array.prototype.join\<close>, which \<^verbatim>\<open>Array.prototype.toString\<close> calls with a comma.\<close>

fun join :: "string \<Rightarrow> string list \<Rightarrow> string" where
  "join sep [] = []"
| "join sep [x] = x"
| "join sep (x # y # ys) = x @ sep @ join sep (y # ys)"

text \<open>
  StringToNumber (ECMA-262, 7.1.4.1.1) follows the grammar of StringNumericLiteral: white
  space around an optional literal, which is a signed decimal literal (digits, a dot, an
  exponent, or \<^verbatim>\<open>Infinity\<close>) or an unsigned binary, octal or hexadecimal integer. Any other
  string converts to NaN. The value of a literal is kept exact here, where JavaScript
  rounds it to the nearest double.
\<close>

definition StrWhiteSpaceChar :: "char \<Rightarrow> bool" where
  "StrWhiteSpaceChar c = (of_char c \<in> {9, 10, 11, 12, 13, 32, 160 :: nat})"

definition trim :: "string \<Rightarrow> string" where
  "trim s = rev (dropWhile StrWhiteSpaceChar (rev (dropWhile StrWhiteSpaceChar s)))"

definition digit_of :: "char \<Rightarrow> nat" where
  \<comment> \<open>the value of a digit in a radix up to 16, and 16 for every other character\<close>
  "digit_of c =
     (let n = (of_char c :: nat) in
      if 48 \<le> n \<and> n \<le> 57 then n - 48
      else if 97 \<le> n \<and> n \<le> 102 then n - 87
      else if 65 \<le> n \<and> n \<le> 70 then n - 55
      else 16)"

definition DecimalDigit :: "char \<Rightarrow> bool" where
  "DecimalDigit c = (digit_of c < 10)"

definition Digits :: "nat \<Rightarrow> string \<Rightarrow> bool" where
  "Digits radix ds = (ds \<noteq> [] \<and> list_all (\<lambda>c. digit_of c < radix) ds)"

definition MV :: "nat \<Rightarrow> string \<Rightarrow> nat" where
  "MV radix ds = foldl (\<lambda>acc c. acc * radix + digit_of c) 0 ds"

definition ExponentPart :: "string \<Rightarrow> int option" where
  "ExponentPart s =
     (if s = [] then Some 0
      else if hd s = CHR ''e'' \<or> hd s = CHR ''E'' then
        (let r = tl s in
         if r \<noteq> [] \<and> hd r = CHR ''+'' then
           (if Digits 10 (tl r) then Some (int (MV 10 (tl r))) else None)
         else if r \<noteq> [] \<and> hd r = CHR ''-'' then
           (if Digits 10 (tl r) then Some (- int (MV 10 (tl r))) else None)
         else if Digits 10 r then Some (int (MV 10 r)) else None)
      else None)"

definition StrUnsignedDecimalLiteral :: "string \<Rightarrow> number" where
  "StrUnsignedDecimalLiteral s =
     (if s = ''Infinity'' then PosInfinity
      else
        (let ip = takeWhile DecimalDigit s;
             r = dropWhile DecimalDigit s;
             dot = (r \<noteq> [] \<and> hd r = CHR ''.'');
             fp = (if dot then takeWhile DecimalDigit (tl r) else []);
             ex = (if dot then dropWhile DecimalDigit (tl r) else r)
         in if ip = [] \<and> fp = [] then NaN
            else (case ExponentPart ex of
                    None \<Rightarrow> NaN
                  | Some e \<Rightarrow>
                      (let m = (of_nat (MV 10 (ip @ fp)) :: rat);
                           e' = e - int (length fp)
                       in Finite (if 0 \<le> e' then m * 10 ^ nat e' else m / 10 ^ nat (- e'))))))"

definition negate :: "number \<Rightarrow> number" where
  "negate n =
     (case n of
        NaN \<Rightarrow> NaN
      | PosInfinity \<Rightarrow> NegInfinity
      | NegInfinity \<Rightarrow> PosInfinity
      | Finite q \<Rightarrow> Finite (- q))"

definition StrNumericLiteral :: "string \<Rightarrow> number" where
  "StrNumericLiteral s =
     (if 2 \<le> length s \<and> hd s = CHR ''0'' \<and> (s ! 1 = CHR ''x'' \<or> s ! 1 = CHR ''X'') then
        (if Digits 16 (drop 2 s) then Finite (of_nat (MV 16 (drop 2 s))) else NaN)
      else if 2 \<le> length s \<and> hd s = CHR ''0'' \<and> (s ! 1 = CHR ''o'' \<or> s ! 1 = CHR ''O'') then
        (if Digits 8 (drop 2 s) then Finite (of_nat (MV 8 (drop 2 s))) else NaN)
      else if 2 \<le> length s \<and> hd s = CHR ''0'' \<and> (s ! 1 = CHR ''b'' \<or> s ! 1 = CHR ''B'') then
        (if Digits 2 (drop 2 s) then Finite (of_nat (MV 2 (drop 2 s))) else NaN)
      else if s \<noteq> [] \<and> hd s = CHR ''+'' then StrUnsignedDecimalLiteral (tl s)
      else if s \<noteq> [] \<and> hd s = CHR ''-'' then negate (StrUnsignedDecimalLiteral (tl s))
      else StrUnsignedDecimalLiteral s)"

definition StringToNumber :: "string \<Rightarrow> number" where
  "StringToNumber s = (let t = trim s in if t = [] then Finite 0 else StrNumericLiteral t)"

text \<open>ToInt32, the conversion the bitwise operators apply to their operands: NaN and the
  infinities become 0, a finite number is truncated towards zero and wrapped to 32 bits.\<close>

fun ToInt32 :: "number \<Rightarrow> 32 word" where
  "ToInt32 (Finite q) = word_of_int (if 0 \<le> q then \<lfloor>q\<rfloor> else - \<lfloor>- q\<rfloor>)"
| "ToInt32 NaN = 0"
| "ToInt32 PosInfinity = 0"
| "ToInt32 NegInfinity = 0"

section \<open>The capability and event catalogs\<close>

text \<open>
  \<^verbatim>\<open>permissions\<close> and \<^verbatim>\<open>eventList\<close> are object literals. They are association lists here, and
  \<^verbatim>\<open>obj[key]\<close> is a lookup among the object's own properties, \<open>None\<close> standing for
  \<^verbatim>\<open>undefined\<close>. The members every object inherits from \<^verbatim>\<open>Object.prototype\<close>
  (\<^verbatim>\<open>constructor\<close>, \<^verbatim>\<open>toString\<close>, ...) are not modelled: a key that names one is
  read as absent. For the operand of \<^verbatim>\<open>&\<close> below this makes no difference, since each
  of them is a function or a plain object and converts to NaN as \<^verbatim>\<open>undefined\<close> does. In
  \<^verbatim>\<open>on\<close> and \<^verbatim>\<open>off\<close> a target made of such keys (\<^verbatim>\<open>constructor@name\<close>) is rejected as
  an unknown event here; in JavaScript it passes the test of the event name and is
  rejected further on.
\<close>

definition permissions :: "(string \<times> string list) list" where
  "permissions =
    [(''global'', [''language:read'', ''theme:read'', ''account:read'', ''backend:read'',
                   ''widgets:read'', ''account:write'', ''backend:write'',
                   ''notification:write'']),
     (''clock'', [''timezone:read'', ''timezone:write'']),
     (''todo'', [''list:read'', ''list:write'']),
     (''quickLink'', [''custom:read'', ''custom:write'']),
     (''course'', [''list:read'', ''list:write'']),
     (''attendance'', [''absentList:read'']),
     (''calendar'', [''events:read'', ''view:read'', ''view:write'']),
     (''coursework'', [''list:read'', ''list:write'']),
     (''quickNote'', [''list:read'', ''list:write'', ''noteContent:read'',
                      ''noteContent:write'', ''view:read'', ''view:write'']),
     (''inbox'', [''list:read'', ''mailContent:read'', ''view:read'', ''view:write'']),
     (''gradeSummary'', [''list:read'']),
     (''plugin'', [''runningPlugins:read''])]"

definition eventList :: "(string \<times> (string \<times> string) list) list" where
  "eventList =
    [(''global'', [(''updateLanguage'', ''language:read''), (''updateTheme'', ''theme:read''),
                   (''updateAccount'', ''account:read''), (''updateBackend'', ''backend:read''),
                   (''updateWidgets'', ''widgets:read'')]),
     (''clock'', [(''updateTimezone'', ''timezone:read'')]),
     (''todo'', [(''done'', ''list:read''), (''undone'', ''list:read''),
                 (''add'', ''list:read''), (''remove'', ''list:read'')]),
     (''quickLink'', [(''addCustomLink'', ''custom:read''),
                      (''removeCustomLink'', ''custom:read'')]),
     (''course'', [(''add'', ''list:read''), (''remove'', ''list:read''),
                   (''update'', ''list:read'')]),
     (''attendance'', [(''update'', ''absentList:read'')]),
     (''calendar'', [(''update'', ''events:read'')]),
     (''coursework'', [(''done'', ''list:read''), (''undone'', ''list:read''),
                       (''add'', ''list:read''), (''remove'', ''list:read'')]),
     (''quickNote'', [(''add'', ''list:read''), (''remove'', ''list:read'')]),
     (''inbox'', [(''update'', ''list:read''), (''send'', ''view:read'')]),
     (''gradeSummary'', [(''update'', ''list:read'')]),
     (''plugin'', [(''updateRunningPlugins'', ''runningPlugins:read'')])]"

text \<open>
  ToNumber of \<^verbatim>\<open>permissions[key]\<close>: \<^verbatim>\<open>undefined\<close> converts to NaN; an array converts
  through its \<^verbatim>\<open>toString\<close>, the comma-joined elements, and then as a string.
\<close>

definition ToNumber_entry :: "string list option \<Rightarrow> number" where
  "ToNumber_entry entry =
     (case entry of
        None \<Rightarrow> NaN
      | Some leaves \<Rightarrow> StringToNumber (join '','' leaves))"

definition Int32_of_bool :: "bool \<Rightarrow> 32 word" where
  "Int32_of_bool b = (if b then 1 else 0)"

text \<open>
  \<^verbatim>\<open>isValidPermissionName\<close> (lines 37-46). The condition of its \<^verbatim>\<open>if\<close> is
  \<^verbatim>\<open>splitedName.length === 2 & permissions[splitedName[0]]\<close>, with the bitwise operator
  \<^verbatim>\<open>&\<close>: both operands are converted with ToInt32, and the test is whether the
  conjunction of the bits is non-zero. (With an absent entry the operand is 0, so the
  \<^verbatim>\<open>includes\<close> of line 43 is not called on \<^verbatim>\<open>undefined\<close>.)
\<close>

definition isValidPermissionName :: "jsval \<Rightarrow> bool" where
  "isValidPermissionName name =
     (case name of
        JString s \<Rightarrow>
          (let splitedName = split (CHR ''/'') s;
               entry = map_of permissions (splitedName ! 0)
           in if Int32_of_bool (length splitedName = 2) AND ToInt32 (ToNumber_entry entry) \<noteq> 0
              then (case entry of
                      None \<Rightarrow> False
                    | Some leaves \<Rightarrow> splitedName ! 1 \<in> set leaves)
              else False)
      | _ \<Rightarrow> False)"

text \<open>
  The Capability Name of the specification: \<open>namespace/leaf\<close> with the namespace a key of
  the catalog and the leaf a member of that namespace's list.
\<close>

definition capability_names :: "string list" where
  "capability_names =
     concat (map (\<lambda>(ns, leaves). map (\<lambda>leaf. ns @ ''/'' @ leaf) leaves) permissions)"

section \<open>Errors\<close>

text \<open>
  Every \<^verbatim>\<open>new Error(...)\<close> of the source is one constructor, named after its message
  and carrying what the message interpolates. \<open>kind\<close> maps each to the error kind the
  specification gives it.
\<close>

datatype error =
    PluginIdNotAString string \<comment> \<open>Plugin ID should be a string, not <typeof>.\<close>
  | InvalidPluginId \<comment> \<open>Invalid plugin ID.\<close>
  | PleaseCallInitFirst \<comment> \<open>Please call uoma.init(pluginId) first.\<close>
  | PermissionNameNotAString string \<comment> \<open>Permission name should be a string, not <typeof>.\<close>
  | InvalidPermissionName string \<comment> \<open>Invalid permission name <permission>.\<close>
  | TimedOut \<comment> \<open>Timed out.\<close>
  | EventNameNotAString string \<comment> \<open>Event name should be a string, not <typeof>.\<close>
  | EventCallbackNotAFunction string \<comment> \<open>Event callback should be a function, not <typeof>.\<close>
  | EventNeedsPermission string \<comment> \<open>This event needs permission <p>, which this plugin doesn't have.\<close>
  | UnknownEventName string \<comment> \<open>Unknown event <target>.\<close>
  | CannotFindCallback \<comment> \<open>Cannot find callback.\<close>
  | NotCallbackRegistered \<comment> \<open>Not callback registered on this event.\<close>

datatype error_kind =
  NotInitialized | InvalidArgument | UnknownEvent | PermissionDenied | Timeout | NotFound

fun kind :: "error \<Rightarrow> error_kind" where
  "kind (PluginIdNotAString t) = InvalidArgument"
| "kind InvalidPluginId = InvalidArgument"
| "kind PleaseCallInitFirst = NotInitialized"
| "kind (PermissionNameNotAString t) = InvalidArgument"
| "kind (InvalidPermissionName p) = InvalidArgument"
| "kind TimedOut = Timeout"
| "kind (EventNameNotAString t) = InvalidArgument"
| "kind (EventCallbackNotAFunction t) = InvalidArgument"
| "kind (EventNeedsPermission p) = PermissionDenied"
| "kind (UnknownEventName t) = UnknownEvent"
| "kind CannotFindCallback = NotFound"
| "kind NotCallbackRegistered = NotFound"

section \<open>The plugin frame: window, promises, listeners, timers\<close>

text \<open>
  The state the SDK reads and writes. \<open>uomaPluginId\<close> is \<^verbatim>\<open>window.uomaPluginId\<close>, the
  session identity. \<open>isTopLevel\<close> is \<^verbatim>\<open>window.parent === window\<close>, and \<open>parent_isUoma\<close>
  is what reading \<^verbatim>\<open>window.parent.isUoma\<close> gives, \<open>None\<close> when the read throws.
  \<open>eventCallbackList\<close> is the module's registry: namespace to event to the array of
  callbacks. Each promise that \<^verbatim>\<open>timedOutPromise\<close> creates is an entry of \<open>promises\<close>,
  known by its index; the message listener and the timer created with it carry that
  index. \<open>posted\<close> logs the messages sent to the parent.
\<close>

datatype promise = Pending | Fulfilled jsval | Rejected error

record listener =
  lid :: nat
  permission :: string

datatype payload = Nullish | Fields jsval jsval

record inbound =
  fromParent :: bool
  payload :: payload

record outbound =
  msg_action :: string
  msg_id :: jsval
  msg_data :: string
  targetOrigin :: string

record world =
  uomaPluginId :: jsval
  isTopLevel :: bool
  parent_isUoma :: "jsval option"
  origin :: string
  messageListeners :: "listener list"
  storageListeners :: nat
  timers :: "(nat \<times> nat) list"
  promises :: "promise list"
  posted :: "outbound list"
  eventCallbackList :: "string \<rightharpoonup> (string \<rightharpoonup> jsval list)"

text \<open>The code units of a string value. The SDK reads them only behind a \<^verbatim>\<open>typeof\<close>
  test.\<close>

fun chars :: "jsval \<Rightarrow> string" where
  "chars (JString s) = s"
| "chars v = []"

text \<open>The test every operation but \<^verbatim>\<open>init\<close> starts with:
  \<^verbatim>\<open>typeof window.uomaPluginId !== 'string' || window.uomaPluginId.length < 4\<close>.\<close>

definition notInitialized :: "world \<Rightarrow> bool" where
  "notInitialized w =
     (typeof (uomaPluginId w) \<noteq> ''string'' \<or> length (chars (uomaPluginId w)) < 4)"

subsection \<open>Promises and the message channel\<close>

text \<open>A promise settles once: \<^verbatim>\<open>resolve\<close> and \<^verbatim>\<open>reject\<close> on a settled promise do
  nothing.\<close>

definition resolve :: "nat \<Rightarrow> jsval \<Rightarrow> world \<Rightarrow> world" where
  "resolve p v w =
     (if p < length (promises w) \<and> promises w ! p = Pending
      then w\<lparr>promises := (promises w)[p := Fulfilled v]\<rparr> else w)"

definition reject :: "nat \<Rightarrow> error \<Rightarrow> world \<Rightarrow> world" where
  "reject p e w =
     (if p < length (promises w) \<and> promises w ! p = Pending
      then w\<lparr>promises := (promises w)[p := Rejected e]\<rparr> else w)"

definition settled :: "nat \<Rightarrow> world \<Rightarrow> (error + jsval) option" where
  "settled p w =
     (if p < length (promises w) then
        (case promises w ! p of
           Pending \<Rightarrow> None
         | Fulfilled v \<Rightarrow> Some (Inr v)
         | Rejected e \<Rightarrow> Some (Inl e))
      else None)"

definition addEventListener :: "listener \<Rightarrow> world \<Rightarrow> world" where
  "addEventListener l w = w\<lparr>messageListeners := messageListeners w @ [l]\<rparr>"

definition removeEventListener :: "nat \<Rightarrow> world \<Rightarrow> world" where
  "removeEventListener p w =
     w\<lparr>messageListeners := filter (\<lambda>l. lid l \<noteq> p) (messageListeners w)\<rparr>"

definition postMessage :: "outbound \<Rightarrow> world \<Rightarrow> world" where
  "postMessage m w = w\<lparr>posted := posted w @ [m]\<rparr>"

subsection \<open>\<^verbatim>\<open>init\<close> (lines 176-201) and \<^verbatim>\<open>isUoma\<close> (lines 24-30)\<close>

definition isUoma :: "world \<Rightarrow> jsval" where
  "isUoma w = (case parent_isUoma w of None \<Rightarrow> JBoolean False | Some v \<Rightarrow> v)"

text \<open>\<open>Inl\<close> is the error \<^verbatim>\<open>init\<close> throws, \<open>Inr\<close> the boolean it returns.\<close>

definition init :: "world \<Rightarrow> jsval \<Rightarrow> (error + bool) \<times> world" where
  "init w pluginId =
     (if typeof pluginId \<noteq> ''string'' then (Inl (PluginIdNotAString (typeof pluginId)), w)
      else if length (chars pluginId) < 4 then (Inl InvalidPluginId, w)
      else if isTopLevel w \<or> \<not> truthy (isUoma w) then (Inr False, w)
      else (Inr True, w\<lparr>uomaPluginId := pluginId,
                         storageListeners := Suc (storageListeners w)\<rparr>))"

subsection \<open>\<^verbatim>\<open>timedOutPromise\<close> (lines 9-18) and \<^verbatim>\<open>checkPermission\<close> (lines 208-240)\<close>

text \<open>
  \<^verbatim>\<open>timedOutPromise(resolvePromise, cleanUp)\<close> creates a promise, runs \<^verbatim>\<open>resolvePromise\<close>
  with the promise's \<^verbatim>\<open>resolve\<close>, and sets a timer of 1000 ms. The promise is the new
  index \<open>p\<close>; the timer is the entry \<open>(p, 1000)\<close>. When the timer fires, its callback runs
  \<^verbatim>\<open>cleanUp()\<close> and then \<^verbatim>\<open>reject(new Error('Timed out.'))\<close>. The one caller passes as
  \<^verbatim>\<open>cleanUp\<close> the removal of the listener it registered (lines 237-239), which is
  \<open>cleanUp p\<close> here.
\<close>

definition timedOutPromise :: "(nat \<Rightarrow> world \<Rightarrow> world) \<Rightarrow> world \<Rightarrow> nat \<times> world" where
  "timedOutPromise resolvePromise w =
     (let p = length (promises w);
          w1 = w\<lparr>promises := promises w @ [Pending]\<rparr>;
          w2 = resolvePromise p w1;
          w3 = w2\<lparr>timers := timers w2 @ [(p, 1000)]\<rparr>
      in (p, w3))"

definition cleanUp :: "nat \<Rightarrow> world \<Rightarrow> world" where
  "cleanUp p w = removeEventListener p w"

definition timer_callback :: "nat \<Rightarrow> world \<Rightarrow> world" where
  "timer_callback p w = reject p TimedOut (cleanUp p w)"

text \<open>
  The function \<^verbatim>\<open>checkPermission\<close> passes as \<^verbatim>\<open>resolvePromise\<close> (lines 222-237): it
  registers the listener and posts the request to the parent, for the frame's own
  origin.
\<close>

definition sendRequest :: "string \<Rightarrow> nat \<Rightarrow> world \<Rightarrow> world" where
  "sendRequest perm p w =
     postMessage \<lparr>msg_action = ''checkPermission'', msg_id = uomaPluginId w,
                  msg_data = perm, targetOrigin = origin w\<rparr>
       (addEventListener \<lparr>lid = p, permission = perm\<rparr> w)"

definition requestPermission :: "string \<Rightarrow> world \<Rightarrow> nat \<times> world" where
  "requestPermission perm w = timedOutPromise (sendRequest perm) w"

text \<open>
  \<^verbatim>\<open>checkPermission\<close> returns a promise: \<open>Inl e\<close> is \<^verbatim>\<open>Promise.reject(e)\<close>, \<open>Inr p\<close> the
  promise \<open>p\<close> of \<^verbatim>\<open>timedOutPromise\<close>.
\<close>

definition checkPermission :: "world \<Rightarrow> jsval \<Rightarrow> (error + nat) \<times> world" where
  "checkPermission w perm =
     (if notInitialized w then (Inl PleaseCallInitFirst, w)
      else if typeof perm \<noteq> ''string'' then (Inl (PermissionNameNotAString (typeof perm)), w)
      else if \<not> isValidPermissionName perm then (Inl (InvalidPermissionName (chars perm)), w)
      else (case requestPermission (chars perm) w of (p, w') \<Rightarrow> (Inr p, w')))"

subsection \<open>The event loop\<close>

text \<open>
  The listener of lines 223-228, called with a message event: it resolves its promise
  with \<^verbatim>\<open>e.data.data\<close> when \<^verbatim>\<open>e.source === window.parent\<close> and \<^verbatim>\<open>e.data.action\<close> is the
  string \<^verbatim>\<open>checkPermission:<permission>\<close>. \<open>Fields a d\<close> is a payload whose \<^verbatim>\<open>action\<close> is
  \<open>a\<close> and whose \<^verbatim>\<open>data\<close> is \<open>d\<close>; on a \<^verbatim>\<open>null\<close> or \<^verbatim>\<open>undefined\<close> payload the property
  read throws inside the listener, and nothing is resolved.
\<close>

definition matching :: "string \<Rightarrow> inbound \<Rightarrow> bool" where
  "matching perm e =
     (fromParent e \<and>
      (case payload e of
         Nullish \<Rightarrow> False
       | Fields a d \<Rightarrow> strict_eq a (JString (''checkPermission:'' @ perm))))"

definition listener_call :: "inbound \<Rightarrow> listener \<Rightarrow> world \<Rightarrow> world" where
  "listener_call e l w =
     (if matching (permission l) e then
        (case payload e of
           Nullish \<Rightarrow> w
         | Fields a d \<Rightarrow> resolve (lid l) d w)
      else w)"

text \<open>
  What the event loop does between the SDK's calls: it delivers a message to every
  registered listener, in the order of registration, or it fires a timer that is set,
  once. The order of the events stands for time: the events before \<open>TimerFires p\<close> are
  those of the first 1000 ms of the promise \<open>p\<close>.
\<close>

datatype event = Message inbound | TimerFires nat

fun step :: "event \<Rightarrow> world \<Rightarrow> world" where
  "step (Message e) w = fold (listener_call e) (messageListeners w) w"
| "step (TimerFires p) w =
     (if p \<in> set (map fst (timers w))
      then timer_callback p (w\<lparr>timers := filter (\<lambda>t. fst t \<noteq> p) (timers w)\<rparr>)
      else w)"

definition run :: "event list \<Rightarrow> world \<Rightarrow> world" where
  "run evs w = fold step evs w"

text \<open>
  \<^verbatim>\<open>await\<close> on the promise \<open>p\<close>: the caller resumes as soon as \<open>p\<close> is settled. \<open>evs\<close> are
  the events the loop handles meanwhile; when they leave \<open>p\<close> pending, the timer of \<open>p\<close>
  is the next event. \<open>None\<close>: the promise never settles.
\<close>

fun await :: "nat \<Rightarrow> event list \<Rightarrow> world \<Rightarrow> ((error + jsval) \<times> world) option" where
  "await p [] w =
     (case settled p w of
        Some r \<Rightarrow> Some (r, w)
      | None \<Rightarrow>
          (let w' = step (TimerFires p) w
           in (case settled p w' of Some r \<Rightarrow> Some (r, w') | None \<Rightarrow> None)))"
| "await p (ev # evs) w =
     (case settled p w of
        Some r \<Rightarrow> Some (r, w)
      | None \<Rightarrow> await p evs (step ev w))"

text \<open>
  \<^verbatim>\<open>on\<close> calls \<^verbatim>\<open>this.checkPermission\<close> and awaits the promise. The method is looked up
  on the receiver when the call runs, so \<open>on\<close> takes it as a parameter: a function from
  the world and the argument to how the awaited promise settles and the world in which
  the caller resumes (\<open>None\<close>: it never settles). \<open>checkPermission_awaited evs\<close> is the
  SDK's own method with the events \<open>evs\<close> during the wait.
\<close>

type_synonym checker = "world \<Rightarrow> jsval \<Rightarrow> ((error + jsval) \<times> world) option"

definition checkPermission_awaited :: "event list \<Rightarrow> checker" where
  "checkPermission_awaited evs w perm =
     (case checkPermission w perm of
        (Inl e, w') \<Rightarrow> Some (Inl e, w')
      | (Inr p, w') \<Rightarrow> await p evs w')"

subsection \<open>\<^verbatim>\<open>on\<close> (lines 248-281) and \<^verbatim>\<open>off\<close> (lines 289-318)\<close>

text \<open>\<^verbatim>\<open>eventList[ns]\<close> followed by \<^verbatim>\<open>[leaf]\<close>, read behind \<^verbatim>\<open>eventList[ns] &&\<close>.\<close>

definition eventList_at :: "string \<Rightarrow> string \<Rightarrow> jsval" where
  "eventList_at ns leaf =
     (case map_of eventList ns of
        None \<Rightarrow> JUndefined
      | Some events \<Rightarrow> (case map_of events leaf of None \<Rightarrow> JUndefined | Some p \<Rightarrow> JString p))"

text \<open>\<^verbatim>\<open>eventCallbackList[ns]\<close> followed by \<^verbatim>\<open>[leaf]\<close>, read behind
  \<^verbatim>\<open>eventCallbackList[ns] &&\<close>: \<open>None\<close> is \<^verbatim>\<open>undefined\<close>, an array is truthy also when it is
  empty.\<close>

definition callbacks_at :: "world \<Rightarrow> string \<Rightarrow> string \<Rightarrow> jsval list option" where
  "callbacks_at w ns leaf =
     (case eventCallbackList w ns of None \<Rightarrow> None | Some m \<Rightarrow> m leaf)"

text \<open>Lines 270-278: create the two levels when they are missing, then \<^verbatim>\<open>push\<close>.\<close>

definition push_callback :: "string \<Rightarrow> string \<Rightarrow> jsval \<Rightarrow> world \<Rightarrow> world" where
  "push_callback ns leaf callback w =
     (let m = (case eventCallbackList w ns of None \<Rightarrow> Map.empty | Some m \<Rightarrow> m);
          xs = (case m leaf of None \<Rightarrow> [] | Some xs \<Rightarrow> xs)
      in w\<lparr>eventCallbackList := (eventCallbackList w)(ns \<mapsto> m(leaf \<mapsto> xs @ [callback]))\<rparr>)"

text \<open>
  \<^verbatim>\<open>on\<close> is an \<^verbatim>\<open>async\<close> function: a \<^verbatim>\<open>throw\<close> and a returned rejected promise both reject
  the promise it returns (\<open>Inl\<close>); \<open>Inr\<close> would be the value it resolves with. After the
  \<^verbatim>\<open>if\<close> of line 262 there is one statement, \<^verbatim>\<open>return Promise.reject(new Error(`Unknown
  event ${target}.`))\<close>, and the branch of the \<^verbatim>\<open>if\<close> has no \<^verbatim>\<open>return\<close> of its own.
\<close>

definition on :: "checker \<Rightarrow> world \<Rightarrow> jsval \<Rightarrow> jsval \<Rightarrow> ((error + jsval) \<times> world) option" where
  "on this_checkPermission w target callback =
     (if notInitialized w then Some (Inl PleaseCallInitFirst, w)
      else if typeof target \<noteq> ''string'' then Some (Inl (EventNameNotAString (typeof target)), w)
      else if typeof callback \<noteq> ''function''
        then Some (Inl (EventCallbackNotAFunction (typeof callback)), w)
      else
        (let splitedTarget = split (CHR ''@'') (chars target);
             ns = splitedTarget ! 0;
             leaf = splitedTarget ! 1
         in if length splitedTarget = 2 \<and> truthy (eventList_at ns leaf) then
              (case this_checkPermission w (eventList_at ns leaf) of
                 None \<Rightarrow> None
               | Some (Inl e, w') \<Rightarrow> Some (Inl e, w')
               | Some (Inr result, w') \<Rightarrow>
                   if \<not> truthy result
                   then Some (Inl (EventNeedsPermission (chars (eventList_at ns leaf))), w')
                   else Some (Inl (UnknownEventName (chars target)),
                              push_callback ns leaf callback w'))
            else Some (Inl (UnknownEventName (chars target)), w)))"

text \<open>The loop of lines 306-312: the first index whose element is \<^verbatim>\<open>=== callback\<close>.\<close>

fun find_callback :: "jsval list \<Rightarrow> jsval \<Rightarrow> nat option" where
  "find_callback [] callback = None"
| "find_callback (x # xs) callback =
     (if strict_eq x callback then Some 0 else map_option Suc (find_callback xs callback))"

text \<open>\<^verbatim>\<open>xs.splice(i, 1)\<close> for an index of the array.\<close>

definition splice1 :: "nat \<Rightarrow> 'a list \<Rightarrow> 'a list" where
  "splice1 i xs = take i xs @ drop (Suc i) xs"

definition set_callbacks :: "string \<Rightarrow> string \<Rightarrow> jsval list \<Rightarrow> world \<Rightarrow> world" where
  "set_callbacks ns leaf xs w =
     (let m = (case eventCallbackList w ns of None \<Rightarrow> Map.empty | Some m \<Rightarrow> m)
      in w\<lparr>eventCallbackList := (eventCallbackList w)(ns \<mapsto> m(leaf \<mapsto> xs))\<rparr>)"

text \<open>\<^verbatim>\<open>off\<close> is not \<^verbatim>\<open>async\<close>: it returns \<^verbatim>\<open>Promise.resolve(callback)\<close> (\<open>Inr\<close>) or a
  rejected promise (\<open>Inl\<close>).\<close>

definition off :: "world \<Rightarrow> jsval \<Rightarrow> jsval \<Rightarrow> (error + jsval) \<times> world" where
  "off w target callback =
     (if notInitialized w then (Inl PleaseCallInitFirst, w)
      else if typeof target \<noteq> ''string'' then (Inl (EventNameNotAString (typeof target)), w)
      else if typeof callback \<noteq> ''function''
        then (Inl (EventCallbackNotAFunction (typeof callback)), w)
      else
        (let splitedTarget = split (CHR ''@'') (chars target);
             ns = splitedTarget ! 0;
             leaf = splitedTarget ! 1
         in if length splitedTarget = 2 \<and> truthy (eventList_at ns leaf) then
              (case callbacks_at w ns leaf of
                 Some xs \<Rightarrow>
                   (case find_callback xs callback of
                      Some i \<Rightarrow> (Inr callback, set_callbacks ns leaf (splice1 i xs) w)
                    | None \<Rightarrow> (Inl CannotFindCallback, w))
               | None \<Rightarrow> (Inl NotCallbackRegistered, w))
            else (Inl (UnknownEventName (chars target)), w)))"

subsection \<open>Worlds\<close>

text \<open>A plugin frame that has just loaded the SDK, embedded under a host that sets the
  flag; and the same frame with a session.\<close>

definition fresh :: world where
  "fresh = \<lparr>uomaPluginId = JUndefined, isTopLevel = False,
            parent_isUoma = Some (JBoolean True), origin = ''https://uoma.example'',
            messageListeners = [], storageListeners = 0, timers = [], promises = [],
            posted = [], eventCallbackList = Map.empty\<rparr>"

definition session :: world where
  "session = fresh\<lparr>uomaPluginId := JString ''plugin-abcd'', storageListeners := 1\<rparr>"

text \<open>Every listener and every timer belongs to a promise that exists. The SDK keeps
  this: a new promise takes the next index.\<close>

definition wf_world :: "world \<Rightarrow> bool" where
  "wf_world w =
     (list_all (\<lambda>l. lid l < length (promises w)) (messageListeners w) \<and>
      list_all (\<lambda>t. fst t < length (promises w)) (timers w))"

text \<open>
  The Event Name of the specification: \<open>namespace@leaf\<close> with the namespace a key of
  the event catalog and the leaf a key of that namespace's map. \<open>event_entries\<close> lists
  each with the capability the catalog gives it.
\<close>

definition event_entries :: "(string \<times> string \<times> string) list" where
  "event_entries =
     concat (map (\<lambda>(ns, events). map (\<lambda>(leaf, p). (ns, leaf, p)) events) eventList)"

definition event_name :: "string \<Rightarrow> string \<Rightarrow> jsval" where
  "event_name ns leaf = JString (ns @ ''@'' @ leaf)"

text \<open>A receiver whose \<^verbatim>\<open>checkPermission\<close> resolves with the value \<open>v\<close> and changes
  nothing, as a stub of the method in a test does.\<close>

definition resolving :: "jsval \<Rightarrow> checker" where
  "resolving v w perm = Some (Inr v, w)"

text \<open>The host's answer to a request for \<open>perm\<close>, as the listener expects it.\<close>

definition response :: "string \<Rightarrow> jsval \<Rightarrow> inbound" where
  "response perm v =
     \<lparr>fromParent = True, payload = Fields (JString (''checkPermission:'' @ perm)) v\<rparr>"

text \<open>The session with the callbacks \<open>xs\<close> registered for \<open>todo@done\<close>.\<close>

definition registered :: "jsval list \<Rightarrow> world" where
  "registered xs = set_callbacks ''todo'' ''done'' xs session"

text \<open>The request \<open>p\<close> for \<open>perm\<close> is under way: its promise is pending, its timer is
  set, and the listeners that resolve it wait for \<open>perm\<close>.\<close>

definition pending_request :: "nat \<Rightarrow> string \<Rightarrow> world \<Rightarrow> bool" where
  "pending_request p perm w =
     (p < length (promises w) \<and> promises w ! p = Pending \<and> p \<in> fst ` set (timers w) \<and>
      list_all (\<lambda>l. lid l \<noteq> p \<or> permission l = perm) (messageListeners w))"

text \<open>An event that is not the host's answer to a request for \<open>perm\<close>.\<close>

definition no_response :: "string \<Rightarrow> event \<Rightarrow> bool" where
  "no_response perm ev = (case ev of Message e \<Rightarrow> \<not> matching perm e | TimerFires q \<Rightarrow> True)"

section \<open>Properties of the catalogs\<close>

lemma split_not_Nil: "split sep s \<noteq> []"
  by (induction s) (auto split: list.splits)

lemma split_two:
  assumes "sep \<notin> set a" and "sep \<notin> set b"
  shows "split sep (a @ sep # b) = [a, b]"
proof -
  have b: "split sep b = [b]" using assms(2)
    by (induction b) auto
  show ?thesis using assms(1) b
    by (induction a) auto
qed

lemma split_one: "split sep s = [b] \<Longrightarrow> s = b"
proof (induction s arbitrary: b)
  case Nil
  then show ?case by simp
next
  case (Cons c cs)
  then show ?case
    by (cases "split sep cs") (auto split: if_splits simp: split_not_Nil)
qed

lemma split_two_eq: "split sep s = [a, b] \<Longrightarrow> s = a @ sep # b"
proof (induction s arbitrary: a)
  case Nil
  then show ?case by simp
next
  case (Cons c cs)
  show ?case
  proof (cases "c = sep")
    case True
    with Cons.prems have "a = []" and "split sep cs = [b]" by simp_all
    with True split_one [of sep cs b] show ?thesis by simp
  next
    case False
    with Cons.prems obtain x where "a = c # x" and "split sep cs = [x, b]"
      by (cases "split sep cs") (auto simp: split_not_Nil)
    with Cons.IH [of x] show ?thesis by simp
  qed
qed

text \<open>What the validator accepts is a name of the catalog. This follows from the shape of
  the function alone: a non-zero conjunction needs two segments, and the answer is then
  the membership of the second in the list of the first.\<close>

lemma isValidPermissionName_sound:
  assumes "isValidPermissionName (JString s)"
  shows "s \<in> set capability_names"
proof -
  define sp where "sp = split (CHR ''/'') s"
  from assms have nz: "Int32_of_bool (length sp = 2) AND
      ToInt32 (ToNumber_entry (map_of permissions (sp ! 0))) \<noteq> 0"
    by (auto simp: isValidPermissionName_def Let_def sp_def split: if_splits)
  then have len: "length sp = 2"
    by (cases "length sp = 2") (simp_all add: Int32_of_bool_def)
  from assms nz obtain leaves where e: "map_of permissions (sp ! 0) = Some leaves"
    and m: "sp ! 1 \<in> set leaves"
    by (auto simp: isValidPermissionName_def Let_def sp_def split: if_splits option.splits)
  from len obtain a b where ab: "sp = [a, b]"
    by (cases sp; cases "tl sp") auto
  with sp_def have s: "s = a @ ''/'' @ b" using split_two_eq [of "CHR ''/''" s a b] by simp
  from e ab have "(a, leaves) \<in> set permissions" by (auto dest: map_of_SomeD)
  moreover from m ab have "b \<in> set leaves" by simp
  ultimately show ?thesis unfolding capability_names_def s by force
qed

text \<open>But it accepts nothing: every array of the catalog converts to NaN, so the second
  operand of \<^verbatim>\<open>&\<close> is 0 for every key.\<close>

lemma permissions_entries_NaN:
  "list_all (\<lambda>(ns, leaves). StringToNumber (join '','' leaves) = NaN) permissions"
  by (simp add: permissions_def StringToNumber_def trim_def StrWhiteSpaceChar_def
      StrNumericLiteral_def StrUnsignedDecimalLiteral_def DecimalDigit_def digit_of_def)

lemma ToInt32_permissions: "ToInt32 (ToNumber_entry (map_of permissions k)) = 0"
proof (cases "map_of permissions k")
  case None
  then show ?thesis by (simp add: ToNumber_entry_def)
next
  case (Some leaves)
  then have "(k, leaves) \<in> set permissions" by (rule map_of_SomeD)
  with permissions_entries_NaN have "StringToNumber (join '','' leaves) = NaN"
    by (auto simp: list_all_iff)
  with Some show ?thesis by (simp add: ToNumber_entry_def)
qed

lemma isValidPermissionName_False: "isValidPermissionName name = False"
  by (cases name) (simp_all add: isValidPermissionName_def Let_def ToInt32_permissions)

lemma typeof_string: "typeof v = ''string'' \<longleftrightarrow> (\<exists>s. v = JString s)"
  by (cases v) auto

lemma typeof_function: "typeof v = ''function'' \<longleftrightarrow> (\<exists>f. v = JFunction f)"
  by (cases v) auto


lemma event_entries_ok:
  "list_all (\<lambda>(ns, leaf, p). CHR ''@'' \<notin> set ns \<and> CHR ''@'' \<notin> set leaf \<and>
      eventList_at ns leaf = JString p \<and> p \<noteq> []) event_entries"
  by (simp add: event_entries_def eventList_def eventList_at_def)

lemma event_entry:
  assumes "(ns, leaf, p) \<in> set event_entries"
  shows "split (CHR ''@'') (ns @ ''@'' @ leaf) = [ns, leaf]"
    and "eventList_at ns leaf = JString p" and "p \<noteq> []"
proof -
  from assms event_entries_ok
  have *: "CHR ''@'' \<notin> set ns \<and> CHR ''@'' \<notin> set leaf \<and>
      eventList_at ns leaf = JString p \<and> p \<noteq> []"
    by (auto simp: list_all_iff)
  then show "split (CHR ''@'') (ns @ ''@'' @ leaf) = [ns, leaf]"
    using split_two [of "CHR ''@''" ns leaf] by simp
  from * show "eventList_at ns leaf = JString p" and "p \<noteq> []" by simp_all
qed

lemma todo_done: "(''todo'', ''done'', ''list:read'') \<in> set event_entries"
  by (simp add: event_entries_def eventList_def)

section \<open>Properties of the operations\<close>

subsection \<open>The session and the registry\<close>

lemma session_initialized: "\<not> notInitialized session"
  by (simp add: session_def fresh_def notInitialized_def)

lemma callbacks_at_session: "callbacks_at session ns leaf = None"
  by (simp add: callbacks_at_def session_def fresh_def)

lemma notInitialized_set_callbacks [simp]:
  "notInitialized (set_callbacks ns leaf xs w) = notInitialized w"
  by (simp add: notInitialized_def set_callbacks_def Let_def)

lemma notInitialized_push_callback [simp]:
  "notInitialized (push_callback ns leaf cb w) = notInitialized w"
  by (simp add: notInitialized_def push_callback_def Let_def)

lemma callbacks_at_set_callbacks [simp]:
  "callbacks_at (set_callbacks ns leaf xs w) ns leaf = Some xs"
  by (simp add: callbacks_at_def set_callbacks_def Let_def)

lemma callbacks_at_push_callback [simp]:
  "callbacks_at (push_callback ns leaf cb w) ns leaf =
     Some ((case callbacks_at w ns leaf of None \<Rightarrow> [] | Some xs \<Rightarrow> xs) @ [cb])"
  by (simp add: callbacks_at_def push_callback_def Let_def split: option.splits)

lemma registered_initialized: "\<not> notInitialized (registered xs)"
  by (simp add: registered_def session_initialized)

subsection \<open>The loop of \<^verbatim>\<open>off\<close>\<close>

lemma find_callback_None: "callback \<notin> set xs \<Longrightarrow> find_callback xs callback = None"
  by (induction xs) (auto simp: strict_eq_def)

lemma find_callback_Some:
  assumes "callback \<in> set xs" and "callback \<noteq> JNumber NaN"
  shows "\<exists>i. find_callback xs callback = Some i \<and> splice1 i xs = remove1 callback xs"
  using assms
proof (induction xs)
  case Nil
  then show ?case by simp
next
  case (Cons x xs)
  show ?case
  proof (cases "x = callback")
    case True
    with Cons.prems show ?thesis by (simp add: strict_eq_def splice1_def)
  next
    case False
    with Cons obtain i where "find_callback xs callback = Some i"
      and "splice1 i xs = remove1 callback xs" by auto
    with False show ?thesis by (simp add: strict_eq_def splice1_def)
  qed
qed

text \<open>The index the loop stops at is the first one that holds the callback.\<close>

lemma find_callback_first:
  "callback \<noteq> JNumber NaN \<Longrightarrow> find_callback xs callback = Some i \<Longrightarrow>
   i < length xs \<and> xs ! i = callback \<and> (\<forall>j<i. xs ! j \<noteq> callback)"
proof (induction xs arbitrary: i)
  case Nil
  then show ?case by simp
next
  case (Cons x xs)
  show ?case
  proof (cases "x = callback")
    case True
    with Cons.prems show ?thesis by (simp add: strict_eq_def)
  next
    case False
    with Cons.prems obtain k where k: "find_callback xs callback = Some k" "i = Suc k"
      by (auto simp: strict_eq_def)
    from Cons.IH [OF Cons.prems(1) k(1)] False k(2) show ?thesis
      by (auto simp: less_Suc_eq_0_disj)
  qed
qed

subsection \<open>\<^verbatim>\<open>on\<close> and \<^verbatim>\<open>off\<close> on a listed event\<close>

lemma off_listed:
  assumes "\<not> notInitialized w" and "(ns, leaf, p) \<in> set event_entries"
  shows "off w (event_name ns leaf) (JFunction f) =
     (case callbacks_at w ns leaf of
        None \<Rightarrow> (Inl NotCallbackRegistered, w)
      | Some xs \<Rightarrow>
          (case find_callback xs (JFunction f) of
             None \<Rightarrow> (Inl CannotFindCallback, w)
           | Some i \<Rightarrow> (Inr (JFunction f), set_callbacks ns leaf (splice1 i xs) w)))"
  using assms(1) event_entry [OF assms(2)]
  by (simp add: off_def event_name_def split: option.splits)

lemma off_found:
  assumes "\<not> notInitialized w" and "(ns, leaf, p) \<in> set event_entries"
    and "callbacks_at w ns leaf = Some xs" and "JFunction f \<in> set xs"
  shows "off w (event_name ns leaf) (JFunction f) =
     (Inr (JFunction f), set_callbacks ns leaf (remove1 (JFunction f) xs) w)"
proof -
  from find_callback_Some [OF assms(4)] obtain i
    where "find_callback xs (JFunction f) = Some i"
      and "splice1 i xs = remove1 (JFunction f) xs" by auto
  with off_listed [OF assms(1,2)] assms(3) show ?thesis by simp
qed

text \<open>A failing \<^verbatim>\<open>off\<close> changes nothing.\<close>

lemma off_failure_unchanged: "off w target callback = (Inl e, w') \<Longrightarrow> w' = w"
  by (auto simp: off_def Let_def split: if_splits option.splits)

lemma on_listed:
  assumes "\<not> notInitialized w" and "(ns, leaf, p) \<in> set event_entries"
  shows "on this w (event_name ns leaf) (JFunction f) =
     (case this w (JString p) of
        None \<Rightarrow> None
      | Some (Inl e, w') \<Rightarrow> Some (Inl e, w')
      | Some (Inr result, w') \<Rightarrow>
          if \<not> truthy result then Some (Inl (EventNeedsPermission p), w')
          else Some (Inl (UnknownEventName (ns @ ''@'' @ leaf)),
                     push_callback ns leaf (JFunction f) w'))"
  using assms(1) event_entry [OF assms(2)]
  by (simp add: on_def event_name_def split: option.splits sum.splits prod.splits)

lemma on_not_resolved: "on this w target callback \<noteq> Some (Inr v, w')"
  by (auto simp: on_def Let_def split: option.splits sum.splits prod.splits if_splits)

lemma on_rejects_if_settles:
  assumes "\<And>w perm. this w perm \<noteq> None"
  shows "\<exists>e w'. on this w target callback = Some (Inl e, w')"
proof (cases "on this w target callback")
  case None
  have "this w (eventList_at (split (CHR ''@'') (chars target) ! 0)
                             (split (CHR ''@'') (chars target) ! 1)) \<noteq> None"
    by (rule assms)
  with None show ?thesis
    by (auto simp: on_def Let_def split: option.splits sum.splits prod.splits if_splits)
next
  case (Some rw)
  obtain r w' where rw: "rw = (r, w')" by (cases rw)
  with Some on_not_resolved [of this w target callback] show ?thesis
    by (cases r) auto
qed

subsection \<open>The SDK's own \<^verbatim>\<open>checkPermission\<close>\<close>

text \<open>
  Since the validator refuses every name, \<^verbatim>\<open>checkPermission\<close> rejects at one of its
  three tests, whatever the session and the argument, and \<^verbatim>\<open>on\<close> with it changes
  nothing.
\<close>

lemma checkPermission_rejects:
  "checkPermission w perm =
     (Inl (if notInitialized w then PleaseCallInitFirst
           else if typeof perm \<noteq> ''string'' then PermissionNameNotAString (typeof perm)
           else InvalidPermissionName (chars perm)), w)"
  by (simp add: checkPermission_def isValidPermissionName_False)

lemma checkPermission_awaited_rejects:
  "checkPermission_awaited evs w perm =
     Some (Inl (if notInitialized w then PleaseCallInitFirst
           else if typeof perm \<noteq> ''string'' then PermissionNameNotAString (typeof perm)
           else InvalidPermissionName (chars perm)), w)"
  by (simp add: checkPermission_awaited_def checkPermission_rejects)

lemma on_own_checkPermission_unchanged:
  "on (checkPermission_awaited evs) w target callback = Some (r, w') \<Longrightarrow> w' = w"
  by (auto simp: on_def Let_def checkPermission_awaited_rejects split: if_splits)

text \<open>What \<^verbatim>\<open>checkPermission\<close> does once its three tests pass, by the text of the
  function: lines 220-239, which are \<open>requestPermission\<close>. (By
  \<open>isValidPermissionName_False\<close> the third test does not pass for any name.)\<close>

lemma checkPermission_passes:
  assumes "\<not> notInitialized w" and "isValidPermissionName (JString perm)"
  shows "checkPermission w (JString perm) =
           (Inr (fst (requestPermission perm w)), snd (requestPermission perm w))"
  using assms by (simp add: checkPermission_def split: prod.splits)

subsection \<open>The request and the event loop\<close>

lemma requestPermission_eq:
  "requestPermission perm w =
     (length (promises w),
      w\<lparr>promises := promises w @ [Pending],
        messageListeners :=
          messageListeners w @ [\<lparr>lid = length (promises w), permission = perm\<rparr>],
        posted := posted w @ [\<lparr>msg_action = ''checkPermission'', msg_id = uomaPluginId w,
                               msg_data = perm, targetOrigin = origin w\<rparr>],
        timers := timers w @ [(length (promises w), 1000)]\<rparr>)"
  by (simp add: requestPermission_def timedOutPromise_def sendRequest_def postMessage_def
      addEventListener_def Let_def)

lemma wf_fresh: "wf_world fresh"
  by (simp add: wf_world_def fresh_def)

lemma wf_session: "wf_world session"
  by (simp add: wf_world_def session_def fresh_def)

lemma request_session:
  "requestPermission ''clock/timezone:read'' session =
     (0, session\<lparr>promises := [Pending],
          messageListeners := [\<lparr>lid = 0, permission = ''clock/timezone:read''\<rparr>],
          posted := [\<lparr>msg_action = ''checkPermission'', msg_id = JString ''plugin-abcd'',
                      msg_data = ''clock/timezone:read'',
                      targetOrigin = ''https://uoma.example''\<rparr>],
          timers := [(0, 1000)]\<rparr>)"
  by (simp add: requestPermission_eq session_def fresh_def)

lemma requestPermission_pending:
  assumes "wf_world w" and "requestPermission perm w = (p, w1)"
  shows "pending_request p perm w1"
  using assms
  by (fastforce simp: requestPermission_eq pending_request_def wf_world_def list_all_iff
      nth_append)

lemma fold_listener_call_fields:
  "messageListeners (fold (listener_call e) ls w) = messageListeners w \<and>
   timers (fold (listener_call e) ls w) = timers w \<and>
   length (promises (fold (listener_call e) ls w)) = length (promises w) \<and>
   posted (fold (listener_call e) ls w) = posted w \<and>
   uomaPluginId (fold (listener_call e) ls w) = uomaPluginId w \<and>
   eventCallbackList (fold (listener_call e) ls w) = eventCallbackList w"
  by (induction ls arbitrary: w)
     (auto simp: listener_call_def resolve_def split: payload.splits)

lemma fold_listener_call_promise:
  assumes "\<forall>l\<in>set ls. lid l = p \<longrightarrow> \<not> matching (permission l) e"
  shows "promises (fold (listener_call e) ls w) ! p = promises w ! p"
  using assms
proof (induction ls arbitrary: w)
  case Nil
  then show ?case by simp
next
  case (Cons l ls)
  have "promises (listener_call e l w) ! p = promises w ! p"
    using Cons.prems
    by (auto simp: listener_call_def resolve_def nth_list_update split: payload.splits)
  with Cons show ?case by simp
qed

lemma step_listeners:
  "messageListeners (step ev w) =
     (case ev of
        Message e \<Rightarrow> messageListeners w
      | TimerFires q \<Rightarrow>
          if q \<in> fst ` set (timers w) then filter (\<lambda>l. lid l \<noteq> q) (messageListeners w)
          else messageListeners w)"
  by (cases ev)
     (simp_all add: fold_listener_call_fields timer_callback_def cleanUp_def reject_def
        removeEventListener_def)

lemma step_timers:
  "timers (step ev w) =
     (case ev of
        Message e \<Rightarrow> timers w
      | TimerFires q \<Rightarrow> filter (\<lambda>t. fst t \<noteq> q) (timers w))"
proof (cases ev)
  case (Message e)
  then show ?thesis by (simp add: fold_listener_call_fields)
next
  case (TimerFires q)
  have "q \<notin> fst ` set (timers w) \<Longrightarrow> filter (\<lambda>t. fst t \<noteq> q) (timers w) = timers w"
    by (induction "timers w") (auto simp: filter_id_conv)
  with TimerFires show ?thesis
    by (auto simp: timer_callback_def cleanUp_def reject_def removeEventListener_def)
qed

text \<open>The event loop touches neither the session nor the registry.\<close>

lemma step_session_registry:
  "uomaPluginId (step ev w) = uomaPluginId w \<and>
   eventCallbackList (step ev w) = eventCallbackList w"
  by (cases ev)
     (simp_all add: fold_listener_call_fields timer_callback_def cleanUp_def reject_def
        removeEventListener_def)

lemma step_pending:
  assumes "pending_request p perm w" and "ev \<noteq> TimerFires p" and "no_response perm ev"
  shows "pending_request p perm (step ev w)"
proof (cases ev)
  case (Message e)
  with assms(3) have nm: "\<not> matching perm e" by (simp add: no_response_def)
  with assms(1) have "\<forall>l\<in>set (messageListeners w). lid l = p \<longrightarrow> \<not> matching (permission l) e"
    by (auto simp: pending_request_def list_all_iff)
  from fold_listener_call_promise [OF this] assms(1) Message show ?thesis
    by (simp add: pending_request_def fold_listener_call_fields)
next
  case (TimerFires q)
  with assms(2) have "q \<noteq> p" by simp
  with assms(1) TimerFires show ?thesis
    by (auto simp: pending_request_def timer_callback_def cleanUp_def reject_def
        removeEventListener_def nth_list_update list_all_iff)
qed

lemma step_timer_fires:
  assumes "pending_request p perm w"
  shows "settled p (step (TimerFires p) w) = Some (Inl TimedOut) \<and>
         list_all (\<lambda>l. lid l \<noteq> p) (messageListeners (step (TimerFires p) w))"
  using assms
  by (auto simp: pending_request_def timer_callback_def cleanUp_def reject_def settled_def
      removeEventListener_def list_all_iff)

lemma await_settled: "settled p w = Some r \<Longrightarrow> await p evs w = Some (r, w)"
  by (cases evs) simp_all

lemma pending_not_settled: "pending_request p perm w \<Longrightarrow> settled p w = None"
  by (simp add: pending_request_def settled_def)

lemma await_times_out:
  assumes "pending_request p perm w" and "list_all (no_response perm) evs"
  shows "\<exists>w'. await p evs w = Some (Inl TimedOut, w') \<and>
              list_all (\<lambda>l. lid l \<noteq> p) (messageListeners w')"
  using assms
proof (induction evs arbitrary: w)
  case Nil
  with step_timer_fires [OF Nil(1)] pending_not_settled [OF Nil(1)] show ?case
    by (simp del: step.simps)
next
  case (Cons ev evs)
  note ns = pending_not_settled [OF Cons.prems(1)]
  show ?case
  proof (cases "ev = TimerFires p")
    case True
    from step_timer_fires [OF Cons.prems(1)]
      await_settled [of p "step (TimerFires p) w" "Inl TimedOut" evs]
    show ?thesis using ns True by (simp del: step.simps)
  next
    case False
    from Cons.prems(2) have "no_response perm ev" by simp
    from step_pending [OF Cons.prems(1) False this]
    have "pending_request p perm (step ev w)" .
    from Cons.IH [OF this] Cons.prems(2) ns show ?thesis by simp
  qed
qed

lemma run_keeps_listener:
  assumes "TimerFires p \<notin> set evs" and "l \<in> set (messageListeners w)" and "lid l = p"
    and "p \<in> fst ` set (timers w)"
  shows "l \<in> set (messageListeners (run evs w)) \<and> p \<in> fst ` set (timers (run evs w))"
  using assms
proof (induction evs arbitrary: w)
  case Nil
  then show ?case by (simp add: run_def)
next
  case (Cons ev evs)
  from Cons.prems have "l \<in> set (messageListeners (step ev w))"
    by (auto simp: step_listeners split: event.splits)
  moreover from Cons.prems have "p \<in> fst ` set (timers (step ev w))"
    by (auto simp: step_timers split: event.splits)
  ultimately show ?case using Cons.IH [of "step ev w"] Cons.prems
    by (simp add: run_def)
qed

text \<open>The worlds the SDK builds are well formed.\<close>

lemma wf_world_requestPermission:
  "wf_world w \<Longrightarrow> wf_world (snd (requestPermission perm w))"
  by (auto simp: requestPermission_eq wf_world_def list_all_iff)

lemma wf_world_step: "wf_world w \<Longrightarrow> wf_world (step ev w)"
proof (cases ev)
  case (Message e)
  assume "wf_world w"
  with Message show ?thesis by (simp add: wf_world_def fold_listener_call_fields)
next
  case (TimerFires q)
  assume "wf_world w"
  with TimerFires show ?thesis
    by (auto simp: wf_world_def list_all_iff timer_callback_def cleanUp_def reject_def
        removeEventListener_def)
qed

section \<open>The claims\<close>

text \<open>
  C1. The claim: \<^verbatim>\<open>isValidPermissionName\<close> is true of every name \<open>namespace/leaf\<close> of the
  capability catalog and false of every other input. The code: it is false of the
  catalog's own \<open>clock/timezone:read\<close>. The name splits into two segments and \<open>clock\<close> is
  a key, but the condition joins the two tests with \<^verbatim>\<open>&\<close>, and the array
  \<^verbatim>\<open>permissions.clock\<close> converts to NaN and so to 0.
\<close>

theorem isValidPermissionName_catalog_name:
  "''clock/timezone:read'' \<in> set capability_names \<and>
   isValidPermissionName (JString ''clock/timezone:read'') = False"
  by (simp add: capability_names_def permissions_def isValidPermissionName_def Let_def
      ToNumber_entry_def StringToNumber_def trim_def StrWhiteSpaceChar_def
      StrNumericLiteral_def StrUnsignedDecimalLiteral_def DecimalDigit_def digit_of_def
      Int32_of_bool_def)

text \<open>
  C2. The claim: for a listed event, a function and a valid session, \<^verbatim>\<open>on\<close> resolves
  exactly when the capability check resolves true, and rejects with PermissionDenied,
  the registry unchanged, when it resolves false. The code, for \<open>todo@done\<close>: when the
  check resolves true, \<^verbatim>\<open>on\<close> appends the callback and then rejects with the unknown-event
  error; when it resolves false, \<^verbatim>\<open>on\<close> rejects with PermissionDenied and changes
  nothing; and with the SDK's own \<^verbatim>\<open>checkPermission\<close> the check is of \<open>list:read\<close>, the
  leaf without its namespace, which is rejected as an invalid name whatever the host
  answers.
\<close>

theorem on_granted_rejects:
  "on (resolving (JBoolean True)) session (JString ''todo@done'') (JFunction 7) =
     Some (Inl (UnknownEventName ''todo@done''),
           push_callback ''todo'' ''done'' (JFunction 7) session) \<and>
   on (resolving (JBoolean False)) session (JString ''todo@done'') (JFunction 7) =
     Some (Inl (EventNeedsPermission ''list:read''), session) \<and>
   on (checkPermission_awaited [Message (response ''todo/list:read'' (JBoolean True)),
                                Message (response ''list:read'' (JBoolean True))])
      session (JString ''todo@done'') (JFunction 7) =
     Some (Inl (InvalidPermissionName ''list:read''), session)"
  using on_listed [OF session_initialized todo_done]
  by (simp add: event_name_def resolving_def checkPermission_awaited_rejects
      session_initialized)

text \<open>
  C3. The claim: an operation that fails leaves the session identity and the registry as
  they were. The code: \<^verbatim>\<open>on\<close> for \<open>todo@done\<close>, with a check that resolves true, fails
  with the unknown-event error after it has created the sequence of \<open>todo@done\<close> and
  appended the callback to it. (\<open>off_failure_unchanged\<close>, \<open>checkPermission_rejects\<close> and
  \<open>step_session_registry\<close>: a failing \<^verbatim>\<open>off\<close> or \<^verbatim>\<open>checkPermission\<close> changes neither.)
\<close>

theorem on_failure_changes_registry:
  "(case on (resolving (JBoolean True)) session (JString ''todo@done'') (JFunction 7) of
      Some (Inl e, w') \<Rightarrow>
        kind e = UnknownEvent \<and> callbacks_at session ''todo'' ''done'' = None \<and>
        callbacks_at w' ''todo'' ''done'' = Some [JFunction 7]
    | _ \<Rightarrow> False)"
  using on_listed [OF session_initialized todo_done, of "resolving (JBoolean True)" 7]
  by (simp add: event_name_def resolving_def callbacks_at_session)

text \<open>
  C4. A request of \<^verbatim>\<open>checkPermission\<close> (what it does once its tests pass) that gets no
  matching response before its timer fires fails with Timeout, and in the world in
  which the caller sees the failure no listener of the request is registered: the
  timer's callback removes the listener and then rejects. The timer is set for 1000 ms
  by the request itself, so this needs nothing from the host; \<open>evs\<close>, the events before
  the timer is due, may be empty.
\<close>

theorem checkPermission_timeout:
  assumes "wf_world w" and "requestPermission perm w = (p, w1)"
    and "list_all (no_response perm) evs"
  shows "timers w1 = timers w @ [(p, 1000)] \<and>
         (\<exists>w'. await p evs w1 = Some (Inl TimedOut, w') \<and>
               list_all (\<lambda>l. lid l \<noteq> p) (messageListeners w')) \<and>
         kind TimedOut = Timeout"
proof -
  from assms(2) have "timers w1 = timers w @ [(p, 1000)]"
    by (auto simp: requestPermission_eq)
  with await_times_out [OF requestPermission_pending [OF assms(1,2)] assms(3)]
  show ?thesis by simp
qed

theorem checkPermission_timeout_witness:
  "\<exists>w'. await 0 [Message (response ''todo/list:read'' (JBoolean True)),
                  Message \<lparr>fromParent = False,
                           payload = Fields (JString ''checkPermission:clock/timezone:read'')
                                            (JBoolean True)\<rparr>]
            (snd (requestPermission ''clock/timezone:read'' session))
          = Some (Inl TimedOut, w') \<and>
        list_all (\<lambda>l. lid l \<noteq> 0) (messageListeners w')"
  using checkPermission_timeout [OF wf_session request_session,
      of "[Message (response ''todo/list:read'' (JBoolean True)),
           Message \<lparr>fromParent = False,
                    payload = Fields (JString ''checkPermission:clock/timezone:read'')
                                     (JBoolean True)\<rparr>]"]
  by (simp add: request_session no_response_def matching_def response_def strict_eq_def)

text \<open>
  C5, as the code has it. The claim says the listener is deregistered at the matching
  response or at the timeout, whichever comes first. The code removes it in the timer's
  callback only: the listener of a request stays registered through every event before
  the request's timer fires, a matching response included, and is gone once the timer
  has fired, whether the promise was resolved or is rejected then.
\<close>

theorem listener_removed_at_timeout:
  assumes "requestPermission perm w = (p, w1)" and "TimerFires p \<notin> set evs"
  shows "\<lparr>lid = p, permission = perm\<rparr> \<in> set (messageListeners (run evs w1)) \<and>
         list_all (\<lambda>l. lid l \<noteq> p) (messageListeners (step (TimerFires p) (run evs w1)))"
proof -
  from assms(1) have "\<lparr>lid = p, permission = perm\<rparr> \<in> set (messageListeners w1)"
    and "p \<in> fst ` set (timers w1)"
    by (auto simp: requestPermission_eq)
  from run_keeps_listener [OF assms(2) this(1) _ this(2)]
  have *: "\<lparr>lid = p, permission = perm\<rparr> \<in> set (messageListeners (run evs w1))"
    "p \<in> fst ` set (timers (run evs w1))" by simp_all
  from *(2)
  have "list_all (\<lambda>l. lid l \<noteq> p) (messageListeners (step (TimerFires p) (run evs w1)))"
    by (simp add: step_listeners list_all_iff del: step.simps)
  with *(1) show ?thesis by simp
qed

theorem listener_removed_at_timeout_witness:
  "\<lparr>lid = 0, permission = ''clock/timezone:read''\<rparr>
     \<in> set (messageListeners
             (run [Message (response ''clock/timezone:read'' (JBoolean True))]
                  (snd (requestPermission ''clock/timezone:read'' session)))) \<and>
   list_all (\<lambda>l. lid l \<noteq> 0)
     (messageListeners (step (TimerFires 0)
        (run [Message (response ''clock/timezone:read'' (JBoolean True))]
             (snd (requestPermission ''clock/timezone:read'' session)))))"
  using listener_removed_at_timeout [OF request_session,
      of "[Message (response ''clock/timezone:read'' (JBoolean True))]"]
  by (simp add: request_session)

text \<open>
  The claim as stated fails: the host's answer to the request for \<open>clock/timezone:read\<close>
  resolves the promise with \<^verbatim>\<open>true\<close>, and the listener is still registered after it.
\<close>

theorem listener_survives_response:
  "fst (requestPermission ''clock/timezone:read'' session) = 0 \<and>
   settled 0 (run [Message (response ''clock/timezone:read'' (JBoolean True))]
                  (snd (requestPermission ''clock/timezone:read'' session)))
     = Some (Inr (JBoolean True)) \<and>
   \<lparr>lid = 0, permission = ''clock/timezone:read''\<rparr>
     \<in> set (messageListeners
             (run [Message (response ''clock/timezone:read'' (JBoolean True))]
                  (snd (requestPermission ''clock/timezone:read'' session))))"
  by (simp add: request_session run_def listener_call_def matching_def response_def
      strict_eq_def resolve_def settled_def)

text \<open>
  C6. \<^verbatim>\<open>checkPermission\<close> before a successful \<^verbatim>\<open>init\<close> fails with NotInitialized
  whatever its argument: \<^verbatim>\<open>window.uomaPluginId\<close> is then \<^verbatim>\<open>undefined\<close>, and an \<^verbatim>\<open>init\<close>
  that does not return \<^verbatim>\<open>true\<close> leaves the world as it was. The preconditions are
  checked in the order session, type of the name, catalog: an invalid session gives
  NotInitialized for every argument, and with a valid session a name that is not a
  string gives the InvalidArgument of the type check, a string that the validator
  refuses the InvalidArgument of the catalog check.
\<close>

theorem checkPermission_precondition_order:
  "(uomaPluginId w = JUndefined \<longrightarrow> checkPermission w perm = (Inl PleaseCallInitFirst, w)) \<and>
   (fst (init w pluginId) \<noteq> Inr True \<longrightarrow> snd (init w pluginId) = w) \<and>
   (notInitialized w \<longrightarrow> checkPermission w perm = (Inl PleaseCallInitFirst, w)) \<and>
   (\<not> notInitialized w \<and> typeof perm \<noteq> ''string'' \<longrightarrow>
      checkPermission w perm = (Inl (PermissionNameNotAString (typeof perm)), w)) \<and>
   (\<not> notInitialized w \<and> typeof perm = ''string'' \<and> \<not> isValidPermissionName perm \<longrightarrow>
      checkPermission w perm = (Inl (InvalidPermissionName (chars perm)), w)) \<and>
   kind PleaseCallInitFirst = NotInitialized \<and>
   kind (PermissionNameNotAString (typeof perm)) = InvalidArgument \<and>
   kind (InvalidPermissionName (chars perm)) = InvalidArgument"
  by (simp add: checkPermission_def notInitialized_def init_def)

theorem checkPermission_precondition_order_witness:
  "checkPermission fresh (JString ''clock/timezone:read'') = (Inl PleaseCallInitFirst, fresh) \<and>
   snd (init fresh (JString ''abc'')) = fresh \<and>
   checkPermission fresh (JObject 0) = (Inl PleaseCallInitFirst, fresh) \<and>
   checkPermission session (JObject 0) = (Inl (PermissionNameNotAString ''object''), session) \<and>
   checkPermission session (JString ''bogus'') = (Inl (InvalidPermissionName ''bogus''), session)"
  using checkPermission_precondition_order
          [of fresh "JString ''clock/timezone:read''" "JString ''abc''"]
        checkPermission_precondition_order [of fresh "JObject 0"]
        checkPermission_precondition_order [of session "JObject 0"]
        checkPermission_precondition_order [of session "JString ''bogus''"]
  by (simp add: fresh_def session_def notInitialized_def init_def isValidPermissionName_False)

text \<open>
  C7. For a string that is not a capability name of the catalog, \<^verbatim>\<open>checkPermission\<close>
  returns a rejected promise and leaves the world as it was: no message is posted, no
  listener registered, no timer set. With a valid session the rejection is the
  InvalidArgument of the catalog check.
\<close>

theorem checkPermission_invalid_name_sends_nothing:
  assumes "name \<notin> set capability_names"
  shows "snd (checkPermission w (JString name)) = w \<and>
     posted (snd (checkPermission w (JString name))) = posted w \<and>
     (\<not> notInitialized w \<longrightarrow>
        fst (checkPermission w (JString name)) = Inl (InvalidPermissionName name) \<and>
        kind (InvalidPermissionName name) = InvalidArgument)"
proof -
  from assms isValidPermissionName_sound [of name]
  have "\<not> isValidPermissionName (JString name)" by blast
  then show ?thesis by (simp add: checkPermission_def)
qed

theorem checkPermission_invalid_name_sends_nothing_witness:
  "snd (checkPermission session (JString ''bogus'')) = session \<and>
   posted (snd (checkPermission session (JString ''bogus''))) = [] \<and>
   fst (checkPermission session (JString ''bogus'')) = Inl (InvalidPermissionName ''bogus'')"
proof -
  have "''bogus'' \<notin> set capability_names"
    by (simp add: capability_names_def permissions_def)
  from checkPermission_invalid_name_sends_nothing [OF this, of session] show ?thesis
    by (simp add: session_initialized) (simp add: session_def fresh_def)
qed

text \<open>
  C8. For a listed event, a valid session and a function \<open>callback\<close>: when the event's
  sequence holds the callback, \<^verbatim>\<open>off\<close> removes its first occurrence and resolves with
  the callback; when the event has no sequence, and when the sequence does not hold the
  callback, \<^verbatim>\<open>off\<close> fails with NotFound and changes nothing. After the callback has been
  registered twice (two runs of \<^verbatim>\<open>on\<close> with a check that resolves true, each of which
  appends it), two calls of \<^verbatim>\<open>off\<close> succeed in turn, each removing one occurrence.
\<close>

theorem off_contract:
  assumes "\<not> notInitialized w" and "(ns, leaf, p) \<in> set event_entries"
    and "typeof callback = ''function''"
  shows
   "(\<forall>xs. callbacks_at w ns leaf = Some xs \<and> callback \<in> set xs \<longrightarrow>
       off w (event_name ns leaf) callback =
         (Inr callback, set_callbacks ns leaf (remove1 callback xs) w)) \<and>
    (callbacks_at w ns leaf = None \<longrightarrow>
       off w (event_name ns leaf) callback = (Inl NotCallbackRegistered, w)) \<and>
    (\<forall>xs. callbacks_at w ns leaf = Some xs \<and> callback \<notin> set xs \<longrightarrow>
       off w (event_name ns leaf) callback = (Inl CannotFindCallback, w)) \<and>
    kind NotCallbackRegistered = NotFound \<and> kind CannotFindCallback = NotFound \<and>
    (\<forall>r1 w1 r2 w2.
       on (resolving (JBoolean True)) w (event_name ns leaf) callback = Some (r1, w1) \<and>
       on (resolving (JBoolean True)) w1 (event_name ns leaf) callback = Some (r2, w2) \<longrightarrow>
       (\<exists>w3 w4. off w2 (event_name ns leaf) callback = (Inr callback, w3) \<and>
                off w3 (event_name ns leaf) callback = (Inr callback, w4) \<and>
                callbacks_at w2 ns leaf =
                  Some ((case callbacks_at w ns leaf of None \<Rightarrow> [] | Some xs \<Rightarrow> xs)
                        @ [callback, callback]) \<and>
                callbacks_at w3 ns leaf =
                  Some (remove1 callback
                    ((case callbacks_at w ns leaf of None \<Rightarrow> [] | Some xs \<Rightarrow> xs)
                     @ [callback, callback])) \<and>
                callbacks_at w4 ns leaf =
                  Some (remove1 callback (remove1 callback
                    ((case callbacks_at w ns leaf of None \<Rightarrow> [] | Some xs \<Rightarrow> xs)
                     @ [callback, callback])))))"
proof -
  from assms(3) obtain f where f: "callback = JFunction f"
    by (auto simp: typeof_function)
  note offl = off_listed [OF _ assms(2), of _ f]
  have a: "\<forall>xs. callbacks_at w ns leaf = Some xs \<and> callback \<in> set xs \<longrightarrow>
       off w (event_name ns leaf) callback =
         (Inr callback, set_callbacks ns leaf (remove1 callback xs) w)"
    using off_found [OF assms(1,2)] f by blast
  have b: "callbacks_at w ns leaf = None \<longrightarrow>
       off w (event_name ns leaf) callback = (Inl NotCallbackRegistered, w)"
    using offl [OF assms(1)] f by simp
  have c: "\<forall>xs. callbacks_at w ns leaf = Some xs \<and> callback \<notin> set xs \<longrightarrow>
       off w (event_name ns leaf) callback = (Inl CannotFindCallback, w)"
    using offl [OF assms(1)] f by (simp add: find_callback_None)
  have d: "\<exists>w3 w4. off w2 (event_name ns leaf) callback = (Inr callback, w3) \<and>
                off w3 (event_name ns leaf) callback = (Inr callback, w4) \<and>
                callbacks_at w2 ns leaf =
                  Some ((case callbacks_at w ns leaf of None \<Rightarrow> [] | Some xs \<Rightarrow> xs)
                        @ [callback, callback]) \<and>
                callbacks_at w3 ns leaf =
                  Some (remove1 callback
                    ((case callbacks_at w ns leaf of None \<Rightarrow> [] | Some xs \<Rightarrow> xs)
                     @ [callback, callback])) \<and>
                callbacks_at w4 ns leaf =
                  Some (remove1 callback (remove1 callback
                    ((case callbacks_at w ns leaf of None \<Rightarrow> [] | Some xs \<Rightarrow> xs)
                     @ [callback, callback])))"
    if on1: "on (resolving (JBoolean True)) w (event_name ns leaf) callback = Some (r1, w1)"
      and on2: "on (resolving (JBoolean True)) w1 (event_name ns leaf) callback = Some (r2, w2)"
    for r1 w1 r2 w2
  proof -
    define xs0 where "xs0 = (case callbacks_at w ns leaf of None \<Rightarrow> [] | Some xs \<Rightarrow> xs)"
    from on1 have w1: "w1 = push_callback ns leaf callback w"
      using on_listed [OF assms(1,2), of "resolving (JBoolean True)" f] f
      by (simp add: resolving_def)
    then have i1: "\<not> notInitialized w1" using assms(1) by simp
    from on2 have w2: "w2 = push_callback ns leaf callback w1"
      using on_listed [OF i1 assms(2), of "resolving (JBoolean True)" f] f
      by (simp add: resolving_def)
    then have i2: "\<not> notInitialized w2" using i1 by simp
    have c2: "callbacks_at w2 ns leaf = Some (xs0 @ [callback, callback])"
      by (simp add: w1 w2 xs0_def)
    define w3
      where "w3 = set_callbacks ns leaf (remove1 callback (xs0 @ [callback, callback])) w2"
    have o1: "off w2 (event_name ns leaf) callback = (Inr callback, w3)"
      using off_found [OF i2 assms(2) c2 [unfolded f]] f by (simp add: w3_def)
    have i3: "\<not> notInitialized w3" using i2 by (simp add: w3_def)
    have c3: "callbacks_at w3 ns leaf = Some (remove1 callback (xs0 @ [callback, callback]))"
      by (simp add: w3_def)
    have mem: "callback \<in> set (remove1 callback (xs0 @ [callback, callback]))"
      by (cases "callback \<in> set xs0") (simp_all add: remove1_append)
    define w4 where "w4 = set_callbacks ns leaf
       (remove1 callback (remove1 callback (xs0 @ [callback, callback]))) w3"
    have o2: "off w3 (event_name ns leaf) callback = (Inr callback, w4)"
      using off_found [OF i3 assms(2) c3 [unfolded f] mem [unfolded f]] f
      by (simp add: w4_def)
    have c4: "callbacks_at w4 ns leaf =
        Some (remove1 callback (remove1 callback (xs0 @ [callback, callback])))"
      by (simp add: w4_def)
    from o1 o2 c2 c3 c4 show ?thesis unfolding xs0_def by blast
  qed
  from a b c d show ?thesis by simp
qed

theorem off_contract_witness:
  "off (registered [JFunction 1, JFunction 7, JFunction 7]) (event_name ''todo'' ''done'')
       (JFunction 7)
     = (Inr (JFunction 7),
        set_callbacks ''todo'' ''done'' [JFunction 1, JFunction 7]
          (registered [JFunction 1, JFunction 7, JFunction 7])) \<and>
   off session (event_name ''todo'' ''done'') (JFunction 7)
     = (Inl NotCallbackRegistered, session) \<and>
   off (registered [JFunction 1]) (event_name ''todo'' ''done'') (JFunction 7)
     = (Inl CannotFindCallback, registered [JFunction 1]) \<and>
   (\<exists>w3 w4.
      off (push_callback ''todo'' ''done'' (JFunction 7)
            (push_callback ''todo'' ''done'' (JFunction 7) session))
          (event_name ''todo'' ''done'') (JFunction 7) = (Inr (JFunction 7), w3) \<and>
      off w3 (event_name ''todo'' ''done'') (JFunction 7) = (Inr (JFunction 7), w4) \<and>
      callbacks_at w3 ''todo'' ''done'' = Some [JFunction 7] \<and>
      callbacks_at w4 ''todo'' ''done'' = Some [])"
proof -
  note t = off_contract [OF _ todo_done, of _ "JFunction 7"]
  have a: "off (registered [JFunction 1, JFunction 7, JFunction 7])
       (event_name ''todo'' ''done'') (JFunction 7)
     = (Inr (JFunction 7),
        set_callbacks ''todo'' ''done'' [JFunction 1, JFunction 7]
          (registered [JFunction 1, JFunction 7, JFunction 7]))"
    using t [OF registered_initialized, of "[JFunction 1, JFunction 7, JFunction 7]"]
    by (simp add: registered_def)
  have b: "off session (event_name ''todo'' ''done'') (JFunction 7)
     = (Inl NotCallbackRegistered, session)"
    using t [OF session_initialized] by (simp add: callbacks_at_session)
  have c: "off (registered [JFunction 1]) (event_name ''todo'' ''done'') (JFunction 7)
     = (Inl CannotFindCallback, registered [JFunction 1])"
    using t [OF registered_initialized, of "[JFunction 1]"]
    by (simp add: registered_def)
  have on1: "on (resolving (JBoolean True)) session (event_name ''todo'' ''done'') (JFunction 7)
     = Some (Inl (UnknownEventName ''todo@done''),
             push_callback ''todo'' ''done'' (JFunction 7) session)"
    using on_listed [OF session_initialized todo_done] by (simp add: resolving_def)
  have on2: "on (resolving (JBoolean True))
       (push_callback ''todo'' ''done'' (JFunction 7) session)
       (event_name ''todo'' ''done'') (JFunction 7)
     = Some (Inl (UnknownEventName ''todo@done''),
         push_callback ''todo'' ''done'' (JFunction 7)
           (push_callback ''todo'' ''done'' (JFunction 7) session))"
    using on_listed [OF _ todo_done, of "push_callback ''todo'' ''done'' (JFunction 7) session"]
    by (simp add: resolving_def session_initialized)
  have d: "\<exists>w3 w4.
      off (push_callback ''todo'' ''done'' (JFunction 7)
            (push_callback ''todo'' ''done'' (JFunction 7) session))
          (event_name ''todo'' ''done'') (JFunction 7) = (Inr (JFunction 7), w3) \<and>
      off w3 (event_name ''todo'' ''done'') (JFunction 7) = (Inr (JFunction 7), w4) \<and>
      callbacks_at w3 ''todo'' ''done'' = Some [JFunction 7] \<and>
      callbacks_at w4 ''todo'' ''done'' = Some []"
    using t [OF session_initialized] on1 on2
    by (simp add: callbacks_at_session)
  from a b c d show ?thesis by blast
qed

text \<open>
  C9. \<^verbatim>\<open>init\<close> throws the InvalidArgument of the type check when \<open>pluginId\<close> is not a
  string and that of the length check when it is shorter than 4; it returns \<^verbatim>\<open>false\<close>
  and changes nothing when the frame is the top-level one, when reading the parent's
  flag throws, and when the flag is falsy; otherwise it returns \<^verbatim>\<open>true\<close> with \<open>pluginId\<close>
  stored as the session identity.
\<close>

theorem init_contract:
  "(typeof pluginId \<noteq> ''string'' \<longrightarrow>
      init w pluginId = (Inl (PluginIdNotAString (typeof pluginId)), w)) \<and>
   (typeof pluginId = ''string'' \<and> length (chars pluginId) < 4 \<longrightarrow>
      init w pluginId = (Inl InvalidPluginId, w)) \<and>
   kind (PluginIdNotAString (typeof pluginId)) = InvalidArgument \<and>
   kind InvalidPluginId = InvalidArgument \<and>
   (typeof pluginId = ''string'' \<and> 4 \<le> length (chars pluginId) \<and>
    (isTopLevel w \<or> parent_isUoma w = None \<or> (\<exists>v. parent_isUoma w = Some v \<and> \<not> truthy v)) \<longrightarrow>
      init w pluginId = (Inr False, w)) \<and>
   (typeof pluginId = ''string'' \<and> 4 \<le> length (chars pluginId) \<and> \<not> isTopLevel w \<and>
    (\<exists>v. parent_isUoma w = Some v \<and> truthy v) \<longrightarrow>
      fst (init w pluginId) = Inr True \<and>
      uomaPluginId (snd (init w pluginId)) = pluginId \<and>
      \<not> notInitialized (snd (init w pluginId)) \<and>
      eventCallbackList (snd (init w pluginId)) = eventCallbackList w)"
  by (auto simp: init_def isUoma_def notInitialized_def split: option.splits)

theorem init_contract_witness:
  "init fresh (JNumber (Finite 4711)) = (Inl (PluginIdNotAString ''number''), fresh) \<and>
   init fresh (JString ''abc'') = (Inl InvalidPluginId, fresh) \<and>
   init (fresh\<lparr>isTopLevel := True\<rparr>) (JString ''plugin-abcd'')
     = (Inr False, fresh\<lparr>isTopLevel := True\<rparr>) \<and>
   init (fresh\<lparr>parent_isUoma := None\<rparr>) (JString ''plugin-abcd'')
     = (Inr False, fresh\<lparr>parent_isUoma := None\<rparr>) \<and>
   init (fresh\<lparr>parent_isUoma := Some JUndefined\<rparr>) (JString ''plugin-abcd'')
     = (Inr False, fresh\<lparr>parent_isUoma := Some JUndefined\<rparr>) \<and>
   fst (init fresh (JString ''plugin-abcd'')) = Inr True \<and>
   uomaPluginId (snd (init fresh (JString ''plugin-abcd''))) = JString ''plugin-abcd''"
  using init_contract [of "JNumber (Finite 4711)" fresh]
    init_contract [of "JString ''abc''" fresh]
    init_contract [of "JString ''plugin-abcd''" "fresh\<lparr>isTopLevel := True\<rparr>"]
    init_contract [of "JString ''plugin-abcd''" "fresh\<lparr>parent_isUoma := None\<rparr>"]
    init_contract [of "JString ''plugin-abcd''" "fresh\<lparr>parent_isUoma := Some JUndefined\<rparr>"]
    init_contract [of "JString ''plugin-abcd''" fresh]
  by (simp add: fresh_def)

text \<open>
  C10. The promise \<^verbatim>\<open>on\<close> returns is never resolved, whatever the receiver, the world
  and the arguments; it is rejected whenever the awaited check settles, and so always
  with the SDK's own \<^verbatim>\<open>checkPermission\<close>. When the session is valid, the event listed,
  the callback a function and the check resolves with a truthy value, \<^verbatim>\<open>on\<close> appends
  the callback and rejects with the unknown-event error.
\<close>

theorem on_always_rejects:
  "(\<forall>v w'. on this w target callback \<noteq> Some (Inr v, w')) \<and>
   ((\<forall>w perm. this w perm \<noteq> None) \<longrightarrow> (\<exists>e w'. on this w target callback = Some (Inl e, w'))) \<and>
   (\<exists>e w'. on (checkPermission_awaited evs) w target callback = Some (Inl e, w')) \<and>
   (\<not> notInitialized w \<and> (ns, leaf, p) \<in> set event_entries \<and>
    typeof callback = ''function'' \<and> this w (JString p) = Some (Inr result, w') \<and>
    truthy result \<longrightarrow>
      on this w (event_name ns leaf) callback =
        Some (Inl (UnknownEventName (ns @ ''@'' @ leaf)), push_callback ns leaf callback w') \<and>
      kind (UnknownEventName (ns @ ''@'' @ leaf)) = UnknownEvent)"
proof -
  have a: "\<forall>v w'. on this w target callback \<noteq> Some (Inr v, w')"
    by (simp add: on_not_resolved)
  have b: "(\<forall>w perm. this w perm \<noteq> None) \<longrightarrow>
      (\<exists>e w'. on this w target callback = Some (Inl e, w'))"
    using on_rejects_if_settles [of this w target callback] by blast
  have c: "\<exists>e w'. on (checkPermission_awaited evs) w target callback = Some (Inl e, w')"
    by (rule on_rejects_if_settles) (simp add: checkPermission_awaited_rejects)
  have d: "on this w (event_name ns leaf) callback =
        Some (Inl (UnknownEventName (ns @ ''@'' @ leaf)), push_callback ns leaf callback w') \<and>
      kind (UnknownEventName (ns @ ''@'' @ leaf)) = UnknownEvent"
    if "\<not> notInitialized w" "(ns, leaf, p) \<in> set event_entries"
      "typeof callback = ''function''" "this w (JString p) = Some (Inr result, w')"
      "truthy result"
  proof -
    from that(3) obtain f where "callback = JFunction f" by (auto simp: typeof_function)
    with on_listed [OF that(1,2), of this f] that(4,5) show ?thesis by simp
  qed
  from a b c d show ?thesis by blast
qed

theorem on_always_rejects_witness:
  "(\<exists>e w'. on (resolving (JBoolean True)) session (event_name ''todo'' ''done'') (JFunction 7)
       = Some (Inl e, w')) \<and>
   on (resolving (JBoolean True)) session (event_name ''todo'' ''done'') (JFunction 7) =
     Some (Inl (UnknownEventName ''todo@done''),
           push_callback ''todo'' ''done'' (JFunction 7) session)"
  using on_always_rejects [of "resolving (JBoolean True)" session
      "event_name ''todo'' ''done''" "JFunction 7"
      "[]" "''todo''" "''done''" "''list:read''" "JBoolean True" session]
  by (simp add: todo_done session_initialized resolving_def)

end
